theory Spec2Isabelle
  imports Complex_Main "HOL-Library.Sublist"
begin

section \<open>NanoFilt: filtering and trimming of FASTQ reads\<close>

text \<open>
  A shallow embedding of \<^verbatim>\<open>nanofilt/NanoFilt.py\<close>. Python integers are \<open>int\<close>. A
  Python float is the real number the double denotes, so comparisons between floats, and
  between a float and an integer, are the comparisons of \<open>real\<close>. The one float operation
  of the sources, the true division of line 168, rounds: its result is \<open>rnd\<close> of the exact
  quotient, where the rounding \<open>rnd\<close> to the nearest double is a parameter of the model.
  Strings are \<open>string\<close> with one \<open>char\<close> per ASCII symbol of the FASTQ text. Standard
  output is the list of records handed to \<^verbatim>\<open>print\<close>, in order; the FASTQ
  encoding of a record (\<^verbatim>\<open>.format("fastq")\<close>) belongs to Biopython and is not modelled.
\<close>

subsection \<open>Records and arguments\<close>

text \<open>
  A \<^verbatim>\<open>SeqRecord\<close> as \<^verbatim>\<open>SeqIO.parse(fq, "fastq")\<close> yields it: \<^verbatim>\<open>rec.id\<close>, \<^verbatim>\<open>rec.seq\<close> and
  \<^verbatim>\<open>rec.letter_annotations["phred_quality"]\<close>. \<^verbatim>\<open>len(rec)\<close> is the length of \<^verbatim>\<open>rec.seq\<close>.
\<close>

record fastq_record =
  id_rec :: string
  seq :: string
  phred_quality :: "nat list"

text \<open>
  The namespace returned by \<^verbatim>\<open>parser.parse_args()\<close>, with the attribute \<^verbatim>\<open>GC_filter\<close>
  that \<^verbatim>\<open>get_args\<close> adds. \<^verbatim>\<open>args.length\<close> is \<open>length_arg\<close>.
\<close>

record args =
  length_arg :: int
  quality :: int
  minGC :: real
  maxGC :: real
  headcrop :: "int option"
  tailcrop :: "int option"
  summary :: "string option"
  readtype :: string
  GC_filter :: bool

text \<open>
  What ends a run: the loop is exhausted, an exception escapes, or \<^verbatim>\<open>sys.exit\<close> is called
  with a message. \<open>ZeroDivisionError\<close> is the division of line 168; \<open>AveQualError\<close> stands
  for any exception raised while evaluating \<^verbatim>\<open>ave_qual(...) > args.quality\<close>.
\<close>

datatype failure = ZeroDivisionError | AveQualError

datatype outcome = Finished | Raised failure | SystemExit string

text \<open>
  The exit status CPython gives the process: 0 after a normal return, 1 after an uncaught
  exception and after \<^verbatim>\<open>sys.exit\<close> with a string (the string goes to standard error).
\<close>

fun exit_status :: "outcome \<Rightarrow> nat" where
  "exit_status Finished = 0"
| "exit_status (Raised e) = 1"
| "exit_status (SystemExit msg) = 1"

subsection \<open>Python slicing\<close>

text \<open>
  \<^verbatim>\<open>xs[start:stop]\<close> with step 1: a negative bound counts from the end, every bound is
  clipped to \<open>[0, len]\<close>, an absent bound is the respective end, and the slice is empty
  when the upper bound does not exceed the lower one.
\<close>

definition slice_index :: "nat \<Rightarrow> int \<Rightarrow> nat" where
  "slice_index n i = (if i < 0 then nat (max (int n + i) 0) else min (nat i) n)"

definition py_slice :: "'a list \<Rightarrow> int option \<Rightarrow> int option \<Rightarrow> 'a list" where
  "py_slice xs start stop =
     (let n = length xs;
          lo = (case start of None \<Rightarrow> 0 | Some i \<Rightarrow> slice_index n i);
          hi = (case stop of None \<Rightarrow> n | Some j \<Rightarrow> slice_index n j)
      in take (hi - lo) (drop lo xs))"

text \<open>
  \<^verbatim>\<open>rec[start:stop]\<close> on a \<^verbatim>\<open>SeqRecord\<close>: the identifier is kept, the sequence and the
  per-letter annotations are sliced with the same bounds.
\<close>

definition getitem_slice :: "fastq_record \<Rightarrow> int option \<Rightarrow> int option \<Rightarrow> fastq_record" where
  "getitem_slice r start stop =
     r\<lparr>seq := py_slice (seq r) start stop,
       phred_quality := py_slice (phred_quality r) start stop\<rparr>"

text \<open>\<^verbatim>\<open>x or 0\<close> for an optional integer, as in \<^verbatim>\<open>int(args.headcrop or 0)\<close>.\<close>

definition or_zero :: "int option \<Rightarrow> int" where
  "or_zero x = (case x of None \<Rightarrow> 0 | Some v \<Rightarrow> if v = 0 then 0 else v)"

subsection \<open>GC fraction (line 168)\<close>

text \<open>\<^verbatim>\<open>str.upper\<close> on an ASCII symbol.\<close>

definition upper_char :: "char \<Rightarrow> char" where
  "upper_char c =
     (case map_of (zip ''abcdefghijklmnopqrstuvwxyz'' ''ABCDEFGHIJKLMNOPQRSTUVWXYZ'') c of
        None \<Rightarrow> c
      | Some u \<Rightarrow> u)"

text \<open>
  The rounding of a real number to a double, as the true division of two Python integers
  performs it on their exact quotient.
\<close>

type_synonym rounding = "real \<Rightarrow> real"

text \<open>
  \<^verbatim>\<open>(rec.seq.upper().count("C") + rec.seq.upper().count("G")) / len(rec)\<close>; true division
  raises on a zero divisor and otherwise gives the rounded quotient.
\<close>

definition gc_fraction :: "rounding \<Rightarrow> string \<Rightarrow> failure + real" where
  "gc_fraction rnd s =
     (let u = map upper_char s
      in if length s = 0 then Inl ZeroDivisionError
         else Inr (rnd (real (count_list u CHR ''C'' + count_list u CHR ''G'') / real (length s))))"

subsection \<open>\<^verbatim>\<open>get_args\<close> after parsing (lines 140--146)\<close>

definition get_args :: "args \<Rightarrow> outcome + args" where
  "get_args parsed =
     (if minGC parsed > maxGC parsed
      then Inl (SystemExit ''NanoFilt: error: argument --minGC should be smaller than --maxGC'')
      else if minGC parsed = 0 \<and> maxGC parsed = 1
      then Inr (parsed\<lparr>GC_filter := False\<rparr>)
      else Inr (parsed\<lparr>GC_filter := True\<rparr>))"

subsection \<open>\<^verbatim>\<open>filter_stream\<close>\<close>

text \<open>
  \<^verbatim>\<open>ave_qual\<close> is imported from the package \<^verbatim>\<open>nanomath\<close>; the filter takes it as a
  parameter \<open>aq\<close>, where \<open>None\<close> means that evaluating
  \<^verbatim>\<open>ave_qual(...) > args.quality\<close> raised.
\<close>

type_synonym aveq = "nat list \<Rightarrow> real option"

definition minlen_of :: "args \<Rightarrow> int" where
  "minlen_of a = length_arg a + or_zero (headcrop a) - or_zero (tailcrop a)"

text \<open>
  One iteration of the loop body (lines 167--174): the exception it raises, or the record
  it prints, or nothing.
\<close>

definition stream_step :: "rounding \<Rightarrow> aveq \<Rightarrow> args \<Rightarrow> int \<Rightarrow> fastq_record \<Rightarrow> failure + fastq_record option" where
  "stream_step rnd aq a minlen r =
     (case (if GC_filter a then gc_fraction rnd (seq r) else Inr (1 / 2)) of
        Inl e \<Rightarrow> Inl e
      | Inr gc \<Rightarrow>
          (case aq (phred_quality r) of
             None \<Rightarrow> Inl AveQualError
           | Some q \<Rightarrow>
               if q > real_of_int (quality a) \<and> int (length (seq r)) > minlen
                  \<and> minGC a \<le> gc \<and> gc \<le> maxGC a
               then Inr (Some (getitem_slice r (headcrop a) (tailcrop a)))
               else Inr None))"

fun stream_loop :: "rounding \<Rightarrow> aveq \<Rightarrow> args \<Rightarrow> int \<Rightarrow> fastq_record list \<Rightarrow> fastq_record list \<times> outcome" where
  "stream_loop rnd aq a minlen [] = ([], Finished)"
| "stream_loop rnd aq a minlen (r # rs) =
     (case stream_step rnd aq a minlen r of
        Inl e \<Rightarrow> ([], Raised e)
      | Inr out \<Rightarrow>
          (case stream_loop rnd aq a minlen rs of
             (printed, res) \<Rightarrow> ((case out of None \<Rightarrow> [] | Some x \<Rightarrow> [x]) @ printed, res)))"

definition filter_stream :: "rounding \<Rightarrow> aveq \<Rightarrow> args \<Rightarrow> fastq_record list \<Rightarrow> fastq_record list \<times> outcome" where
  "filter_stream rnd aq a fq = stream_loop rnd aq a (minlen_of a) fq"

subsection \<open>\<^verbatim>\<open>filter_using_summary\<close>\<close>

text \<open>
  \<^verbatim>\<open>process_summary\<close> belongs to the package \<^verbatim>\<open>nanoget\<close>; its rows
  \<^verbatim>\<open>(readID, qual)\<close> are a parameter. The dict comprehension keeps the last row of an
  identifier.
\<close>

definition summary_index :: "(string \<times> real) list \<Rightarrow> (string \<rightharpoonup> real)" where
  "summary_index rows = map_of (rev rows)"

definition mismatch_message :: "string \<Rightarrow> string" where
  "mismatch_message i =
     [CHR 0x0A] @ ''ERROR: mismatch between sequencing_summary and fastq file: ''
     @ ''                 '' @ i @ '' was not found in the summary file.'' @ [CHR 0x0A]
     @ ''Quitting.''"

text \<open>One iteration (lines 190--191): the missing key, or the record printed, or nothing.\<close>

definition summary_step :: "(string \<rightharpoonup> real) \<Rightarrow> args \<Rightarrow> fastq_record \<Rightarrow> string + fastq_record option" where
  "summary_step data a r =
     (case data (id_rec r) of
        None \<Rightarrow> Inl (id_rec r)
      | Some q \<Rightarrow>
          if q > real_of_int (quality a) \<and> int (length (seq r)) > length_arg a
          then Inr (Some (getitem_slice r (headcrop a) (tailcrop a)))
          else Inr None)"

fun summary_loop :: "(string \<rightharpoonup> real) \<Rightarrow> args \<Rightarrow> fastq_record list \<Rightarrow> fastq_record list \<times> outcome" where
  "summary_loop data a [] = ([], Finished)"
| "summary_loop data a (r # rs) =
     (case summary_step data a r of
        Inl k \<Rightarrow> ([], SystemExit (mismatch_message k))
      | Inr out \<Rightarrow>
          (case summary_loop data a rs of
             (printed, res) \<Rightarrow> ((case out of None \<Rightarrow> [] | Some x \<Rightarrow> [x]) @ printed, res)))"

definition filter_using_summary :: "(string \<times> real) list \<Rightarrow> args \<Rightarrow> fastq_record list \<Rightarrow> fastq_record list \<times> outcome" where
  "filter_using_summary rows a fq = summary_loop (summary_index rows) a fq"

subsection \<open>\<^verbatim>\<open>main\<close>\<close>

text \<open>Lines 66--67: \<^verbatim>\<open>if args.tailcrop: args.tailcrop = -args.tailcrop\<close>.\<close>

definition negate_tailcrop :: "args \<Rightarrow> args" where
  "negate_tailcrop a =
     (case tailcrop a of
        None \<Rightarrow> a
      | Some t \<Rightarrow> if t \<noteq> 0 then a\<lparr>tailcrop := Some (- t)\<rparr> else a)"

text \<open>Line 68: \<^verbatim>\<open>if args.summary\<close>, false for \<^verbatim>\<open>None\<close> and for the empty string.\<close>

definition use_summary :: "args \<Rightarrow> bool" where
  "use_summary a = (case summary a of None \<Rightarrow> False | Some s \<Rightarrow> s \<noteq> [])"

definition main :: "rounding \<Rightarrow> aveq \<Rightarrow> (string \<times> real) list \<Rightarrow> args \<Rightarrow> fastq_record list \<Rightarrow> fastq_record list \<times> outcome" where
  "main rnd aq rows parsed stdin =
     (case get_args parsed of
        Inl e \<Rightarrow> ([], e)
      | Inr a0 \<Rightarrow>
          (let a = negate_tailcrop a0
           in if use_summary a then filter_using_summary rows a stdin
              else filter_stream rnd aq a stdin))"

section \<open>The specification's predicates\<close>

text \<open>
  These definitions follow the words of the specification, over the configuration as the
  user gave it (before \<^verbatim>\<open>main\<close> negates the tail crop); the theorems below compare them
  with the functions above.
\<close>

definition is_GC :: "char \<Rightarrow> bool" where
  "is_GC c = (c = CHR ''G'' \<or> c = CHR ''C'' \<or> c = CHR ''g'' \<or> c = CHR ''c'')"

definition gc_content :: "string \<Rightarrow> real" where
  "gc_content s = real (length (filter is_GC s)) / real (length s)"

text \<open>A crop length, absent meaning 0.\<close>

definition crop_len :: "int option \<Rightarrow> int" where
  "crop_len c = (case c of None \<Rightarrow> 0 | Some n \<Rightarrow> n)"

definition gc_configured :: "args \<Rightarrow> bool" where
  "gc_configured p = (\<not> (minGC p = 0 \<and> maxGC p = 1))"

text \<open>
  The acceptance condition of the Stream Filter (specification, 4.4 step 3). The GC
  fraction is the float the division returns, the rounded quotient; that of an empty
  record does not exist and lies within no bounds.
\<close>

definition stream_accepts :: "rounding \<Rightarrow> aveq \<Rightarrow> args \<Rightarrow> fastq_record \<Rightarrow> bool" where
  "stream_accepts rnd aq p r =
     ((case aq (phred_quality r) of None \<Rightarrow> False | Some q \<Rightarrow> q > real_of_int (quality p))
      \<and> int (length (seq r)) > length_arg p + crop_len (headcrop p) + crop_len (tailcrop p)
      \<and> (gc_configured p \<longrightarrow>
           seq r \<noteq> []
           \<and> minGC p \<le> rnd (gc_content (seq r)) \<and> rnd (gc_content (seq r)) \<le> maxGC p))"

text \<open>
  The iterations of the Stream Filter that end in an exception: the GC fraction of an
  empty record, or a failing quality aggregation.
\<close>

definition stream_raises :: "aveq \<Rightarrow> args \<Rightarrow> fastq_record \<Rightarrow> bool" where
  "stream_raises aq p r = ((gc_configured p \<and> seq r = []) \<or> aq (phred_quality r) = None)"

text \<open>The record printed for an accepted record.\<close>

definition trim :: "args \<Rightarrow> fastq_record \<Rightarrow> fastq_record" where
  "trim a r = getitem_slice r (headcrop a) (tailcrop a)"

text \<open>The acceptance condition of the Summary-Joined Filter (specification, 4.5 step 3).\<close>

definition summary_accepts :: "(string \<rightharpoonup> real) \<Rightarrow> args \<Rightarrow> fastq_record \<Rightarrow> bool" where
  "summary_accepts data p r =
     (case data (id_rec r) of
        None \<Rightarrow> False
      | Some q \<Rightarrow> q > real_of_int (quality p) \<and> int (length (seq r)) > length_arg p)"

definition in_summary :: "(string \<rightharpoonup> real) \<Rightarrow> fastq_record \<Rightarrow> bool" where
  "in_summary data r = (data (id_rec r) \<noteq> None)"

text \<open>
  The records \<^verbatim>\<open>main\<close> accepts: none when \<^verbatim>\<open>get_args\<close> exits, otherwise the accepted
  ones among the records before the first failing iteration of the selected filter.
\<close>

definition main_accepted :: "rounding \<Rightarrow> aveq \<Rightarrow> (string \<times> real) list \<Rightarrow> args \<Rightarrow> fastq_record list \<Rightarrow> fastq_record list" where
  "main_accepted rnd aq rows p recs =
     (if minGC p > maxGC p then []
      else if use_summary p
      then filter (summary_accepts (summary_index rows) p)
             (takeWhile (in_summary (summary_index rows)) recs)
      else filter (stream_accepts rnd aq p) (takeWhile (\<lambda>r. \<not> stream_raises aq p r) recs))"

subsection \<open>Quality Aggregator\<close>

text \<open>
  \<^verbatim>\<open>ave_qual\<close> is imported from the package \<^verbatim>\<open>nanomath\<close> (line 28) and is not part of
  the sources; the three definitions below take it from section 4.1 of the specification,
  over the reals.
\<close>

text \<open>
  Modelled from the spec: the error probability of a Phred score, which \<^verbatim>\<open>nanomath\<close>
  computes and the sources do not contain: "score \<open>q\<close> encodes error probability
  \<open>10^(-q/10)\<close>".
\<close>

definition phred_to_prob :: "real \<Rightarrow> real" where
  "phred_to_prob q = 10 powr (- q / 10)"

text \<open>
  Modelled from the spec: the inverse transform of \<^verbatim>\<open>nanomath\<close>, from a probability back
  to a Phred-scaled score.
\<close>

definition prob_to_phred :: "real \<Rightarrow> real" where
  "prob_to_phred e = - 10 * log 10 e"

text \<open>
  Modelled from the spec: \<^verbatim>\<open>ave_qual\<close> of \<^verbatim>\<open>nanomath\<close>: "convert each score to its
  error probability, take the arithmetic mean of the probabilities (not of the scores),
  convert the mean probability back to a Phred-scaled score via the inverse transform";
  on an empty input it fails.
\<close>

definition ave_qual :: "nat list \<Rightarrow> real option" where
  "ave_qual quals =
     (if quals = [] then None
      else Some (prob_to_phred
             (sum_list (map (\<lambda>q. phred_to_prob (real q)) quals) / real (length quals))))"

subsection \<open>Example data\<close>

text \<open>The end-to-end example of the specification (section 8).\<close>

definition r1 :: fastq_record where
  "r1 = \<lparr>id_rec = ''r1'', seq = ''ACGTACGTAC'', phred_quality = replicate 10 30\<rparr>"

definition r2 :: fastq_record where
  "r2 = \<lparr>id_rec = ''r2'', seq = ''AC'', phred_quality = replicate 2 5\<rparr>"

definition cfg :: args where
  "cfg = \<lparr>length_arg = 5, quality = 10, minGC = 0, maxGC = 1, headcrop = Some 2,
     tailcrop = None, summary = None, readtype = ''1D'', GC_filter = False\<rparr>"

text \<open>The same configuration with a summary file, and its rows.\<close>

definition cfg_summary :: args where
  "cfg_summary = cfg\<lparr>summary := Some ''sequencing_summary.txt''\<rparr>"

definition rows_example :: "(string \<times> real) list" where
  "rows_example = [(''r1'', 12), (''r2'', 7)]"

text \<open>A record whose identifier is not in the summary.\<close>

definition r3 :: fastq_record where
  "r3 = \<lparr>id_rec = ''r3'', seq = ''GGGGCCCCAT'', phred_quality = replicate 10 20\<rparr>"

text \<open>An empty read, a configuration with a tail crop, and cropped forms of \<open>r1\<close>.\<close>

definition r0 :: fastq_record where
  "r0 = \<lparr>id_rec = ''r0'', seq = [], phred_quality = []\<rparr>"

definition cfg_tail1 :: args where
  "cfg_tail1 = cfg\<lparr>tailcrop := Some 1\<rparr>"

definition r1_cropped :: fastq_record where
  "r1_cropped = \<lparr>id_rec = ''r1'', seq = ''GTACGTA'', phred_quality = replicate 7 30\<rparr>"

definition r1_empty :: fastq_record where
  "r1_empty = \<lparr>id_rec = ''r1'', seq = [], phred_quality = []\<rparr>"

text \<open>Arguments with GC filtering switched on, as \<^verbatim>\<open>get_args\<close> returns them.\<close>

definition cfg_gc :: args where
  "cfg_gc = cfg\<lparr>minGC := 1 / 5, GC_filter := True\<rparr>"

text \<open>
  A rounding for the examples: it gives the double nearest to 1/3 and leaves every other
  number as it is; the other quotients of the examples, 0, 1/2 and 1, are doubles.
\<close>

definition rnd_example :: rounding where
  "rnd_example x = (if x = 1 / 3 then 6004799503160661 / 18014398509481984 else x)"

text \<open>
  A read with one G among three bases, and a configuration whose maximal GC fraction is
  the double \<^verbatim>\<open>0.3333333333333333\<close>.
\<close>

definition r_gat :: fastq_record where
  "r_gat = \<lparr>id_rec = ''gat'', seq = ''GAT'', phred_quality = replicate 3 30\<rparr>"

definition cfg_third :: args where
  "cfg_third = \<lparr>length_arg = 1, quality = 0, minGC = 0,
     maxGC = 6004799503160661 / 18014398509481984, headcrop = None, tailcrop = None,
     summary = None, readtype = ''1D'', GC_filter = False\<rparr>"

section \<open>Basic facts\<close>

lemma upper_char_C: "upper_char c = CHR ''C'' \<longleftrightarrow> c = CHR ''C'' \<or> c = CHR ''c''"
  by (auto simp: upper_char_def)

lemma upper_char_G: "upper_char c = CHR ''G'' \<longleftrightarrow> c = CHR ''G'' \<or> c = CHR ''g''"
  by (auto simp: upper_char_def)

lemma gc_count:
  "count_list (map upper_char s) CHR ''C'' + count_list (map upper_char s) CHR ''G''
     = length (filter is_GC s)"
  by (induction s) (auto simp: upper_char_C upper_char_G is_GC_def)

lemma gc_fraction_eq:
  "gc_fraction rnd s = (if s = [] then Inl ZeroDivisionError else Inr (rnd (gc_content s)))"
  by (simp add: gc_fraction_def gc_content_def gc_count Let_def)

lemma or_zero_crop: "or_zero x = crop_len x"
  by (simp add: or_zero_def crop_len_def split: option.splits)

lemma minlen_negate:
  "minlen_of (negate_tailcrop a) = length_arg a + crop_len (headcrop a) + crop_len (tailcrop a)"
  by (simp add: minlen_of_def negate_tailcrop_def or_zero_crop crop_len_def split: option.splits)

lemma negate_fields:
  "quality (negate_tailcrop a) = quality a"
  "length_arg (negate_tailcrop a) = length_arg a"
  "minGC (negate_tailcrop a) = minGC a"
  "maxGC (negate_tailcrop a) = maxGC a"
  "headcrop (negate_tailcrop a) = headcrop a"
  "GC_filter (negate_tailcrop a) = GC_filter a"
  "summary (negate_tailcrop a) = summary a"
  by (simp_all add: negate_tailcrop_def split: option.splits)

lemma get_args_fields:
  assumes "get_args p = Inr a"
  shows "quality a = quality p" "length_arg a = length_arg p" "minGC a = minGC p"
    "maxGC a = maxGC p" "headcrop a = headcrop p" "tailcrop a = tailcrop p"
    "summary a = summary p" "GC_filter a = gc_configured p" "minGC p \<le> maxGC p"
  using assms by (auto simp: get_args_def gc_configured_def split: if_splits)

lemma trim_cong: "headcrop a = headcrop b \<Longrightarrow> tailcrop a = tailcrop b \<Longrightarrow> trim a = trim b"
  by (simp add: trim_def fun_eq_iff)

lemma trim_get_args:
  assumes "get_args p = Inr a0"
  shows "trim (negate_tailcrop a0) = trim (negate_tailcrop p)"
  using get_args_fields[OF assms]
  by (intro trim_cong) (simp_all add: negate_tailcrop_def split: option.splits)

lemma use_summary_get_args:
  assumes "get_args p = Inr a0"
  shows "use_summary (negate_tailcrop a0) = use_summary p"
  using get_args_fields[OF assms] by (simp add: use_summary_def negate_fields)

lemma main_stream:
  assumes "get_args p = Inr a0" "\<not> use_summary p"
  shows "main rnd aq rows p recs = filter_stream rnd aq (negate_tailcrop a0) recs"
  using assms use_summary_get_args[OF assms(1)] by (simp add: main_def Let_def)

subsection \<open>The Quality Aggregator\<close>

lemma prob_pos: "0 < phred_to_prob q"
  by (simp add: phred_to_prob_def)

lemma prob_roundtrip: "prob_to_phred (phred_to_prob q) = q"
  by (simp add: phred_to_prob_def prob_to_phred_def)

lemma ave_qual_replicate: "0 < n \<Longrightarrow> ave_qual (replicate n q) = Some (real q)"
  by (simp add: ave_qual_def sum_list_replicate map_replicate_const prob_roundtrip)

section \<open>The Stream Filter\<close>

lemma stream_step_Some: "stream_step rnd aq a m r = Inr (Some x) \<Longrightarrow> x = trim a r"
  by (auto simp: stream_step_def trim_def split: sum.splits option.splits if_splits)

lemma stream_loop_fst:
  "fst (stream_loop rnd aq a m recs) =
     map (trim a) (filter (\<lambda>r. stream_step rnd aq a m r = Inr (Some (trim a r)))
        (takeWhile (\<lambda>r. \<not> isl (stream_step rnd aq a m r)) recs))"
proof (induction recs)
  case Nil
  show ?case by simp
next
  case (Cons r rs)
  obtain printed res where L: "stream_loop rnd aq a m rs = (printed, res)"
    by (cases "stream_loop rnd aq a m rs")
  show ?case
  proof (cases "stream_step rnd aq a m r")
    case (Inl e)
    then show ?thesis by simp
  next
    case (Inr out)
    show ?thesis
    proof (cases out)
      case None
      with Inr Cons L show ?thesis by simp
    next
      case (Some x)
      with Inr have "x = trim a r" by (simp add: stream_step_Some)
      with Some Inr Cons L show ?thesis by simp
    qed
  qed
qed

lemma stream_step_accepts:
  assumes "get_args p = Inr a0"
  shows "stream_step rnd aq (negate_tailcrop a0) (minlen_of (negate_tailcrop a0)) r
           = Inr (Some (trim (negate_tailcrop a0) r)) \<longleftrightarrow> stream_accepts rnd aq p r"
  using get_args_fields[OF assms]
  by (auto simp: stream_step_def stream_accepts_def minlen_negate negate_fields gc_fraction_eq
        trim_def gc_configured_def split: option.splits)

lemma stream_step_raises:
  assumes "get_args p = Inr a0"
  shows "isl (stream_step rnd aq (negate_tailcrop a0) m r) \<longleftrightarrow> stream_raises aq p r"
  using get_args_fields[OF assms]
  by (auto simp: stream_step_def stream_raises_def negate_fields gc_fraction_eq
        split: option.splits)

lemma filter_stream_fst:
  assumes "get_args p = Inr a0"
  shows "fst (filter_stream rnd aq (negate_tailcrop a0) recs) =
     map (trim (negate_tailcrop p))
       (filter (stream_accepts rnd aq p) (takeWhile (\<lambda>r. \<not> stream_raises aq p r) recs))"
proof -
  have "fst (filter_stream rnd aq (negate_tailcrop a0) recs) =
     map (trim (negate_tailcrop a0))
       (filter (stream_accepts rnd aq p) (takeWhile (\<lambda>r. \<not> stream_raises aq p r) recs))"
    by (simp add: filter_stream_def stream_loop_fst stream_step_accepts[OF assms]
        stream_step_raises[OF assms])
  then show ?thesis by (simp add: trim_get_args[OF assms])
qed

lemma accepts_not_raises: "stream_accepts rnd aq p r \<Longrightarrow> \<not> stream_raises aq p r"
  by (auto simp: stream_accepts_def stream_raises_def split: option.splits)

text \<open>
  C1. With the arguments as \<^verbatim>\<open>get_args\<close> returns them and no summary file, the Stream
  Filter prints, in order, the trimmed form of exactly those records it reaches that
  satisfy the acceptance condition: average quality strictly above the minimum quality,
  length strictly above minimum length + head crop + tail crop, and GC fraction within
  \<open>[minGC, maxGC]\<close>, the last conjunct holding whenever GC filtering is not configured.
  The GC fraction compared is the double the division of line 168 returns, for every
  rounding of the quotient.
  The records reached are those before the first iteration that raises; a record on
  which the iteration raises does not satisfy the condition either, so a single record
  is printed if and only if it satisfies the condition.
\<close>

theorem stream_filter_acceptance:
  assumes "get_args p = Inr a0" and "\<not> use_summary p"
  shows "fst (main rnd aq rows p recs) =
           map (trim (negate_tailcrop p))
             (filter (stream_accepts rnd aq p) (takeWhile (\<lambda>r. \<not> stream_raises aq p r) recs))
         \<and> fst (main rnd aq rows p [r]) =
             (if stream_accepts rnd aq p r then [trim (negate_tailcrop p) r] else [])"
proof -
  have 1: "fst (main rnd aq rows p xs) =
           map (trim (negate_tailcrop p))
             (filter (stream_accepts rnd aq p) (takeWhile (\<lambda>r. \<not> stream_raises aq p r) xs))" for xs
    by (simp add: main_stream[OF assms] filter_stream_fst[OF assms(1)])
  show ?thesis
    using accepts_not_raises[of rnd aq p r] by (auto simp: 1)
qed

theorem stream_filter_acceptance_witness:
  "get_args cfg = Inr cfg \<and> \<not> use_summary cfg
   \<and> fst (main rnd_example ave_qual [] cfg [r1, r2]) =
       [\<lparr>id_rec = ''r1'', seq = ''GTACGTAC'', phred_quality = replicate 8 30\<rparr>]
   \<and> get_args cfg_third = Inr (cfg_third\<lparr>GC_filter := True\<rparr>) \<and> \<not> use_summary cfg_third
   \<and> fst (main rnd_example ave_qual [] cfg_third [r_gat]) = [r_gat]"
proof -
  have g: "get_args cfg = Inr cfg" by (simp add: get_args_def cfg_def)
  have u: "\<not> use_summary cfg" by (simp add: use_summary_def cfg_def)
  have a1: "stream_accepts rnd_example ave_qual cfg r1"
    by (simp add: stream_accepts_def r1_def cfg_def ave_qual_replicate crop_len_def gc_configured_def)
  have a2: "\<not> stream_accepts rnd_example ave_qual cfg r2"
    by (simp add: stream_accepts_def r2_def cfg_def ave_qual_replicate crop_len_def)
  have n1: "\<not> stream_raises ave_qual cfg r1"
    by (simp add: stream_raises_def r1_def cfg_def ave_qual_replicate gc_configured_def)
  have n2: "\<not> stream_raises ave_qual cfg r2"
    by (simp add: stream_raises_def r2_def cfg_def ave_qual_replicate gc_configured_def)
  have t: "trim (negate_tailcrop cfg) r1 =
      \<lparr>id_rec = ''r1'', seq = ''GTACGTAC'', phred_quality = replicate 8 30\<rparr>"
    by (simp add: trim_def negate_tailcrop_def cfg_def r1_def getitem_slice_def py_slice_def
        slice_index_def)
  have g3: "get_args cfg_third = Inr (cfg_third\<lparr>GC_filter := True\<rparr>)"
    by (simp add: get_args_def cfg_third_def)
  have u3: "\<not> use_summary cfg_third" by (simp add: use_summary_def cfg_third_def)
  have gat: "gc_content (seq r_gat) = 1 / 3"
    by (simp add: gc_content_def is_GC_def r_gat_def)
  have q3: "ave_qual (phred_quality r_gat) = Some 30"
    by (simp add: r_gat_def ave_qual_replicate)
  have a3: "stream_accepts rnd_example ave_qual cfg_third r_gat"
    unfolding stream_accepts_def gat q3
    by (simp add: cfg_third_def r_gat_def crop_len_def rnd_example_def)
  have t3: "trim (negate_tailcrop cfg_third) r_gat = r_gat"
    by (simp add: trim_def negate_tailcrop_def cfg_third_def r_gat_def getitem_slice_def
        py_slice_def)
  from stream_filter_acceptance[OF g u, of rnd_example ave_qual "[]" "[r1, r2]" r1]
  have 1: "fst (main rnd_example ave_qual [] cfg [r1, r2]) =
       [\<lparr>id_rec = ''r1'', seq = ''GTACGTAC'', phred_quality = replicate 8 30\<rparr>]"
    by (simp add: a1 a2 n1 n2 t)
  from stream_filter_acceptance[OF g3 u3, of rnd_example ave_qual "[]" "[]" r_gat]
  have 2: "fst (main rnd_example ave_qual [] cfg_third [r_gat]) = [r_gat]"
    by (simp add: a3 t3)
  from g u g3 u3 1 2 show ?thesis by blast
qed

section \<open>The composition metric\<close>

text \<open>
  C6. For every non-empty symbol sequence the GC fraction is the number of symbols equal
  to G or C, in either case, divided by the length: the program holds the double that the
  division rounds this quotient to, and under the exact reading of the division it is the
  quotient itself. It is 1 for GGCC, 0 for ATAT and 1/2 for ATGC, under the exact reading
  and under every rounding that leaves these three doubles as they are.
\<close>

theorem gc_fraction_definition:
  "(s \<noteq> [] \<longrightarrow>
      gc_fraction rnd s = Inr (rnd (real (length (filter is_GC s)) / real (length s))))
   \<and> (s \<noteq> [] \<longrightarrow>
      gc_fraction (\<lambda>x. x) s = Inr (real (length (filter is_GC s)) / real (length s)))
   \<and> gc_fraction (\<lambda>x. x) ''GGCC'' = Inr 1
   \<and> gc_fraction (\<lambda>x. x) ''ATAT'' = Inr 0
   \<and> gc_fraction (\<lambda>x. x) ''ATGC'' = Inr (1 / 2)
   \<and> (rnd 1 = 1 \<and> rnd 0 = 0 \<and> rnd (1 / 2) = 1 / 2 \<longrightarrow>
        gc_fraction rnd ''GGCC'' = Inr 1
        \<and> gc_fraction rnd ''ATAT'' = Inr 0
        \<and> gc_fraction rnd ''ATGC'' = Inr (1 / 2))"
  by (simp add: gc_fraction_eq gc_content_def is_GC_def)

theorem gc_fraction_definition_witness:
  "''gcAT'' \<noteq> [] \<and> rnd_example 1 = 1 \<and> rnd_example 0 = 0 \<and> rnd_example (1 / 2) = 1 / 2
   \<and> gc_fraction rnd_example ''gcAT'' = Inr (1 / 2)
   \<and> gc_fraction (\<lambda>x. x) ''gcAT'' = Inr (1 / 2)
   \<and> gc_fraction rnd_example ''GGCC'' = Inr 1
   \<and> gc_fraction rnd_example ''ATAT'' = Inr 0
   \<and> gc_fraction rnd_example ''ATGC'' = Inr (1 / 2)"
proof -
  have e: "rnd_example 1 = 1" "rnd_example 0 = 0" "rnd_example (1 / 2) = 1 / 2"
    by (simp_all add: rnd_example_def)
  have q: "real (length (filter is_GC ''gcAT'')) / real (length ''gcAT'') = 1 / 2"
    by (simp add: is_GC_def)
  from gc_fraction_definition[of "''gcAT''" rnd_example] e
  have "gc_fraction rnd_example ''gcAT''
          = Inr (rnd_example (real (length (filter is_GC ''gcAT'')) / real (length ''gcAT'')))"
    and "gc_fraction (\<lambda>x. x) ''gcAT''
          = Inr (real (length (filter is_GC ''gcAT'')) / real (length ''gcAT''))"
    and "gc_fraction rnd_example ''GGCC'' = Inr 1"
    and "gc_fraction rnd_example ''ATAT'' = Inr 0"
    and "gc_fraction rnd_example ''ATGC'' = Inr (1 / 2)"
    by simp_all
  then show ?thesis unfolding q using e by simp
qed

section \<open>Quality aggregation\<close>

lemma sum_probs_pos:
  "quals \<noteq> [] \<Longrightarrow> 0 < sum_list (map (\<lambda>q. phred_to_prob (real q)) quals)"
proof (induction quals)
  case Nil
  then show ?case by simp
next
  case (Cons q qs)
  have "0 \<le> sum_list (map (\<lambda>q. phred_to_prob (real q)) qs)"
    by (rule sum_list_nonneg) (auto simp: less_imp_le prob_pos)
  with prob_pos[of "real q"] show ?case by simp
qed

lemma pow_bound: "10 powr (- 3 / 2) \<le> (1 / 20 :: real)"
proof -
  have "(10::real) powr (- 3 / 2) = (10 powr (- 3)) powr (1 / 2)"
    by (simp add: powr_powr)
  also have "\<dots> = sqrt (10 powr (- 3))"
    by (simp add: powr_half_sqrt)
  also have "\<dots> \<le> sqrt ((1 / 20)\<^sup>2)"
    by (subst real_sqrt_le_iff) (simp add: powr_minus power2_eq_square)
  also have "\<dots> = 1 / 20" by simp
  finally show ?thesis .
qed

lemma example_le_15:
  "ave_qual [10, 10, 40] = Some v \<Longrightarrow> v \<le> 15"
proof -
  assume a: "ave_qual [10, 10, 40] = Some v"
  define m :: real where "m = (phred_to_prob 10 + phred_to_prob 10 + phred_to_prob 40) / 3"
  have v: "v = prob_to_phred m" using a by (simp add: ave_qual_def m_def)
  have "phred_to_prob 10 = 1 / 10" by (simp add: phred_to_prob_def powr_minus)
  moreover have "0 < phred_to_prob 40" by (rule prob_pos)
  ultimately have m: "1 / 20 \<le> m" by (simp add: m_def)
  then have "10 powr (- 3 / 2) \<le> m" using pow_bound by linarith
  then have "log 10 (10 powr (- 3 / 2)) \<le> log 10 m"
    by (subst log_le_cancel_iff) (use m in auto)
  then have "- 3 / 2 \<le> log 10 m" by simp
  then show ?thesis by (simp add: v prob_to_phred_def)
qed

text \<open>
  C4. For every non-empty list of Phred scores the aggregate is the inverse Phred
  transform of the arithmetic mean of the error probabilities \<open>10^(-q/10)\<close>: it is
  \<open>-10 log\<^sub>1\<^sub>0\<close> of that mean, and its own error probability is that mean. For the
  scores 10, 10, 40 the aggregate is closer to 13 than to 20.
\<close>

theorem ave_qual_probability_average:
  "(quals \<noteq> [] \<longrightarrow>
      (\<exists>v. ave_qual quals = Some v
        \<and> v = - 10 * log 10 ((\<Sum>q\<leftarrow>quals. 10 powr (- real q / 10)) / real (length quals))
        \<and> 10 powr (- v / 10) = (\<Sum>q\<leftarrow>quals. 10 powr (- real q / 10)) / real (length quals)))
   \<and> (\<exists>v. ave_qual [10, 10, 40] = Some v \<and> \<bar>v - 13\<bar> < \<bar>v - 20\<bar>)"
proof (intro conjI impI)
  assume ne: "quals \<noteq> []"
  let ?m = "(\<Sum>q\<leftarrow>quals. 10 powr (- real q / 10)) / real (length quals)"
  have "0 < ?m" using sum_probs_pos[OF ne] ne by (simp add: phred_to_prob_def)
  then have "10 powr (- (- 10 * log 10 ?m) / 10) = ?m" by simp
  then show "\<exists>v. ave_qual quals = Some v \<and> v = - 10 * log 10 ?m \<and> 10 powr (- v / 10) = ?m"
    using ne by (simp add: ave_qual_def prob_to_phred_def phred_to_prob_def)
next
  obtain v where v: "ave_qual [10, 10, 40] = Some v" by (simp add: ave_qual_def)
  from example_le_15[OF v] have "\<bar>v - 13\<bar> < \<bar>v - 20\<bar>" by linarith
  with v show "\<exists>v. ave_qual [10, 10, 40] = Some v \<and> \<bar>v - 13\<bar> < \<bar>v - 20\<bar>" by blast
qed

theorem ave_qual_probability_average_witness:
  "[20, 20] \<noteq> ([] :: nat list) \<and> ave_qual [20, 20] = Some 20"
proof -
  have "- 10 * log 10 ((\<Sum>q\<leftarrow>[20, 20 :: nat]. 10 powr (- real q / 10)) / real (length [20, 20 :: nat])) = 20"
    by simp
  then show ?thesis
    using ave_qual_probability_average[of "[20, 20]"] by auto
qed

section \<open>The Summary-Joined Filter\<close>

lemma summary_step_eq:
  "summary_step data a r =
     (if in_summary data r
      then Inr (if summary_accepts data a r then Some (trim a r) else None)
      else Inl (id_rec r))"
  by (auto simp: summary_step_def in_summary_def summary_accepts_def trim_def split: option.splits)

lemma summary_loop_append:
  assumes "\<forall>r\<in>set pre. in_summary data r"
  shows "summary_loop data a (pre @ rest) =
           (map (trim a) (filter (summary_accepts data a) pre) @ fst (summary_loop data a rest),
            snd (summary_loop data a rest))"
  using assms
proof (induction pre)
  case Nil
  show ?case by simp
next
  case (Cons r pre)
  then show ?case
    by (cases "summary_loop data a rest") (simp add: summary_step_eq)
qed

lemma summary_loop_all:
  assumes "\<forall>r\<in>set recs. in_summary data r"
  shows "summary_loop data a recs = (map (trim a) (filter (summary_accepts data a) recs), Finished)"
  using summary_loop_append[OF assms, of a "[]"] by simp

lemma summary_loop_absent:
  assumes "\<not> in_summary data bad"
  shows "summary_loop data a (bad # post) = ([], SystemExit (mismatch_message (id_rec bad)))"
  using assms by (simp add: summary_step_eq)

lemma summary_accepts_fields:
  "quality a = quality b \<Longrightarrow> length_arg a = length_arg b
     \<Longrightarrow> summary_accepts data a = summary_accepts data b"
  by (simp add: summary_accepts_def fun_eq_iff split: option.splits)

lemma main_summary:
  assumes "get_args p = Inr a0" "use_summary p"
  shows "main rnd aq rows p recs = filter_using_summary rows (negate_tailcrop a0) recs"
  using assms use_summary_get_args[OF assms(1)] by (simp add: main_def Let_def)

lemma summary_accepts_get_args:
  assumes "get_args p = Inr a0"
  shows "summary_accepts data (negate_tailcrop a0) = summary_accepts data p"
  using get_args_fields[OF assms] by (intro summary_accepts_fields) (simp_all add: negate_fields)

lemma main_summary_all:
  assumes "get_args p = Inr a0" "use_summary p"
    and "\<forall>r\<in>set recs. in_summary (summary_index rows) r"
  shows "main rnd aq rows p recs =
     (map (trim (negate_tailcrop p)) (filter (summary_accepts (summary_index rows) p) recs), Finished)"
  by (simp add: main_summary[OF assms(1,2)] filter_using_summary_def summary_loop_all[OF assms(3)]
      summary_accepts_get_args[OF assms(1)] trim_get_args[OF assms(1)])

lemma get_args_GC:
  assumes "get_args p = Inr a0" "g1 \<le> g2"
  shows "\<exists>b0. get_args (p\<lparr>minGC := g1, maxGC := g2\<rparr>) = Inr b0
           \<and> quality b0 = quality a0 \<and> length_arg b0 = length_arg a0
           \<and> headcrop b0 = headcrop a0 \<and> tailcrop b0 = tailcrop a0 \<and> summary b0 = summary a0"
  using assms by (auto simp: get_args_def split: if_splits)

lemma summary_loop_cong:
  assumes "quality a = quality b" "length_arg a = length_arg b"
    "headcrop a = headcrop b" "tailcrop a = tailcrop b"
  shows "summary_loop data a recs = summary_loop data b recs"
proof (induction recs)
  case Nil
  show ?case by simp
next
  case (Cons r rs)
  have "summary_step data a r = summary_step data b r"
    using assms by (simp add: summary_step_def split: option.splits)
  with Cons show ?case by (simp split: sum.splits)
qed

text \<open>
  C2. With a summary file, a record whose identifier is in the summary index is printed
  (trimmed) if and only if the quality looked up is strictly above the minimum quality
  and the length of the record is strictly above the minimum length, with no crop length
  added to the threshold; when every identifier is present the run prints exactly the
  accepted records and finishes; and the GC bounds have no influence on this path.
\<close>

theorem summary_filter_acceptance:
  assumes "get_args p = Inr a0" and "use_summary p"
  shows "(summary_index rows (id_rec r) = Some q \<longrightarrow>
            fst (main rnd aq rows p [r]) =
              (if q > real_of_int (quality p) \<and> int (length (seq r)) > length_arg p
               then [trim (negate_tailcrop p) r] else []))
         \<and> ((\<forall>r\<in>set recs. summary_index rows (id_rec r) \<noteq> None) \<longrightarrow>
              main rnd aq rows p recs =
                (map (trim (negate_tailcrop p))
                   (filter (summary_accepts (summary_index rows) p) recs), Finished))
         \<and> (g1 \<le> g2 \<longrightarrow> main rnd aq rows (p\<lparr>minGC := g1, maxGC := g2\<rparr>) recs = main rnd aq rows p recs)"
proof (intro conjI impI)
  assume q: "summary_index rows (id_rec r) = Some q"
  then have "\<forall>x\<in>set [r]. in_summary (summary_index rows) x" by (simp add: in_summary_def)
  from main_summary_all[OF assms this] q
  show "fst (main rnd aq rows p [r]) =
      (if q > real_of_int (quality p) \<and> int (length (seq r)) > length_arg p
       then [trim (negate_tailcrop p) r] else [])"
    by (simp add: summary_accepts_def)
next
  assume "\<forall>r\<in>set recs. summary_index rows (id_rec r) \<noteq> None"
  then have "\<forall>r\<in>set recs. in_summary (summary_index rows) r" by (simp add: in_summary_def)
  from main_summary_all[OF assms this]
  show "main rnd aq rows p recs =
      (map (trim (negate_tailcrop p)) (filter (summary_accepts (summary_index rows) p) recs), Finished)" .
next
  assume "g1 \<le> g2"
  from get_args_GC[OF assms(1) this] obtain b0 where
    b: "get_args (p\<lparr>minGC := g1, maxGC := g2\<rparr>) = Inr b0"
    and f: "quality b0 = quality a0" "length_arg b0 = length_arg a0"
      "headcrop b0 = headcrop a0" "tailcrop b0 = tailcrop a0" "summary b0 = summary a0"
    by blast
  have u: "use_summary (p\<lparr>minGC := g1, maxGC := g2\<rparr>)"
    using assms(2) by (simp add: use_summary_def)
  have "summary_loop (summary_index rows) (negate_tailcrop b0) recs
      = summary_loop (summary_index rows) (negate_tailcrop a0) recs"
    using f by (intro summary_loop_cong) (simp_all add: negate_fields negate_tailcrop_def split: option.splits)
  then show "main rnd aq rows (p\<lparr>minGC := g1, maxGC := g2\<rparr>) recs = main rnd aq rows p recs"
    by (simp add: main_summary[OF b u] main_summary[OF assms] filter_using_summary_def)
qed

theorem summary_filter_acceptance_witness:
  "get_args cfg_summary = Inr cfg_summary \<and> use_summary cfg_summary
   \<and> summary_index rows_example (id_rec r1) = Some 12
   \<and> summary_index rows_example (id_rec r2) = Some 7
   \<and> (1 / 5 :: real) \<le> 3 / 5
   \<and> main rnd_example ave_qual rows_example cfg_summary [r1, r2] =
       ([\<lparr>id_rec = ''r1'', seq = ''GTACGTAC'', phred_quality = replicate 8 30\<rparr>], Finished)
   \<and> main rnd_example ave_qual rows_example (cfg_summary\<lparr>minGC := 1 / 5, maxGC := 3 / 5\<rparr>) [r1, r2] =
       ([\<lparr>id_rec = ''r1'', seq = ''GTACGTAC'', phred_quality = replicate 8 30\<rparr>], Finished)"
proof -
  have g: "get_args cfg_summary = Inr cfg_summary"
    by (simp add: get_args_def cfg_summary_def cfg_def)
  have u: "use_summary cfg_summary" by (simp add: use_summary_def cfg_summary_def)
  have i1: "summary_index rows_example (id_rec r1) = Some 12"
    by (simp add: summary_index_def rows_example_def r1_def)
  have i2: "summary_index rows_example (id_rec r2) = Some 7"
    by (simp add: summary_index_def rows_example_def r2_def)
  have a1: "summary_accepts (summary_index rows_example) cfg_summary r1"
    by (simp add: summary_accepts_def i1) (simp add: cfg_summary_def cfg_def r1_def)
  have a2: "\<not> summary_accepts (summary_index rows_example) cfg_summary r2"
    by (simp add: summary_accepts_def i2) (simp add: cfg_summary_def cfg_def r2_def)
  have t: "trim (negate_tailcrop cfg_summary) r1 =
      \<lparr>id_rec = ''r1'', seq = ''GTACGTAC'', phred_quality = replicate 8 30\<rparr>"
    by (simp add: trim_def negate_tailcrop_def cfg_summary_def cfg_def r1_def getitem_slice_def
        py_slice_def slice_index_def)
  show ?thesis
    using summary_filter_acceptance[OF g u, where rows = rows_example and r = r1 and q = 12
        and recs = "[r1, r2]" and ?g1.0 = "1 / 5" and ?g2.0 = "3 / 5" and aq = ave_qual and rnd = rnd_example]
    by (simp add: g u i1 i2 a1 a2 t)
qed

lemma id_rec_trim: "id_rec (trim a r) = id_rec r"
  by (simp add: trim_def getitem_slice_def)

lemma summary_loop_fst:
  "fst (summary_loop data a recs) =
     map (trim a) (filter (summary_accepts data a) (takeWhile (in_summary data) recs))"
proof (induction recs)
  case Nil
  show ?case by simp
next
  case (Cons r rs)
  then show ?case
    by (cases "summary_loop data a rs") (simp add: summary_step_eq)
qed

text \<open>
  C3. If the identifier of some record is missing from the summary index, the
  Summary-Joined Filter stops at the first such record: the run ends with
  \<^verbatim>\<open>sys.exit\<close> and a message that contains the offending identifier, the exit status
  is not zero, and the output consists of the accepted records before that record only.
\<close>

theorem summary_mismatch_fatal:
  assumes "\<exists>r\<in>set recs. summary_index rows (id_rec r) = None"
  shows "\<exists>pre bad post.
           recs = pre @ bad # post
           \<and> (\<forall>r\<in>set pre. summary_index rows (id_rec r) \<noteq> None)
           \<and> summary_index rows (id_rec bad) = None
           \<and> filter_using_summary rows a recs =
               (map (trim a) (filter (summary_accepts (summary_index rows) a) pre),
                SystemExit (mismatch_message (id_rec bad)))
           \<and> exit_status (snd (filter_using_summary rows a recs)) \<noteq> 0
           \<and> (\<exists>u v. mismatch_message (id_rec bad) = u @ id_rec bad @ v)"
proof -
  let ?data = "summary_index rows"
  from split_list_first_prop[OF assms] obtain pre bad post where
    d: "recs = pre @ bad # post" and b: "?data (id_rec bad) = None"
    and p: "\<forall>r\<in>set pre. ?data (id_rec r) \<noteq> None"
    by blast
  from p have p': "\<forall>r\<in>set pre. in_summary ?data r" by (simp add: in_summary_def)
  from b have b': "\<not> in_summary ?data bad" by (simp add: in_summary_def)
  have run: "filter_using_summary rows a recs =
      (map (trim a) (filter (summary_accepts ?data a) pre),
       SystemExit (mismatch_message (id_rec bad)))"
    by (simp add: filter_using_summary_def d summary_loop_append[OF p']
        summary_loop_absent[OF b'] del: summary_loop.simps)
  have msg: "\<exists>u v. mismatch_message (id_rec bad) = u @ id_rec bad @ v"
    unfolding mismatch_message_def by (metis append.assoc)
  from d p b run msg show ?thesis
    by (intro exI[of _ pre] exI[of _ bad] exI[of _ post]) simp
qed

theorem summary_mismatch_fatal_witness:
  "summary_index rows_example (id_rec r3) = None
   \<and> filter_using_summary rows_example cfg_summary [r1, r3, r1] =
       ([\<lparr>id_rec = ''r1'', seq = ''GTACGTAC'', phred_quality = replicate 8 30\<rparr>],
        SystemExit (mismatch_message ''r3''))
   \<and> exit_status (snd (filter_using_summary rows_example cfg_summary [r1, r3, r1])) = 1"
proof -
  have i1: "summary_index rows_example (id_rec r1) = Some 12"
    by (simp add: summary_index_def rows_example_def r1_def)
  have i3: "summary_index rows_example (id_rec r3) = None"
    by (simp add: summary_index_def rows_example_def r3_def)
  have ex: "\<exists>r\<in>set [r1, r3, r1]. summary_index rows_example (id_rec r) = None"
    using i3 by simp
  have a1: "summary_accepts (summary_index rows_example) cfg_summary r1"
    by (simp add: summary_accepts_def i1) (simp add: cfg_summary_def cfg_def r1_def)
  have t: "trim cfg_summary r1 =
      \<lparr>id_rec = ''r1'', seq = ''GTACGTAC'', phred_quality = replicate 8 30\<rparr>"
    by (simp add: trim_def cfg_summary_def cfg_def r1_def getitem_slice_def
        py_slice_def slice_index_def)
  from summary_mismatch_fatal[OF ex, of cfg_summary] obtain pre bad post where
    d: "[r1, r3, r1] = pre @ bad # post"
    and p: "\<forall>r\<in>set pre. summary_index rows_example (id_rec r) \<noteq> None"
    and b: "summary_index rows_example (id_rec bad) = None"
    and run: "filter_using_summary rows_example cfg_summary [r1, r3, r1] =
       (map (trim cfg_summary) (filter (summary_accepts (summary_index rows_example) cfg_summary) pre),
        SystemExit (mismatch_message (id_rec bad)))"
    by blast
  have "pre = [r1] \<and> bad = r3"
  proof (cases pre)
    case Nil
    with d b i1 show ?thesis by simp
  next
    case (Cons x xs)
    with d have x: "x = r1" and rest: "[r3, r1] = xs @ bad # post" by simp_all
    show ?thesis
    proof (cases xs)
      case Nil
      with rest Cons x show ?thesis by simp
    next
      case (Cons y ys)
      with rest have "y = r3" by simp
      with p \<open>pre = x # xs\<close> Cons i3 show ?thesis by simp
    qed
  qed
  with run i3 show ?thesis by (simp add: a1 t r3_def)
qed

section \<open>Monotonicity, order and statelessness\<close>

lemma length_filter_mono:
  "(\<And>x. P x \<Longrightarrow> Q x) \<Longrightarrow> length (filter P xs) \<le> length (filter Q xs)"
  by (induction xs) auto

lemma stream_step_isl:
  "isl (stream_step rnd aq a m r) \<longleftrightarrow> (GC_filter a \<and> seq r = []) \<or> aq (phred_quality r) = None"
  by (auto simp: stream_step_def gc_fraction_eq split: option.splits)

lemma stream_step_emits:
  "stream_step rnd aq a m r = Inr (Some (trim a r)) \<longleftrightarrow>
     \<not> isl (stream_step rnd aq a m r)
     \<and> (\<exists>q. aq (phred_quality r) = Some q \<and> q > real_of_int (quality a))
     \<and> int (length (seq r)) > m
     \<and> minGC a \<le> (if GC_filter a then rnd (gc_content (seq r)) else 1 / 2)
     \<and> (if GC_filter a then rnd (gc_content (seq r)) else 1 / 2) \<le> maxGC a"
  by (auto simp: stream_step_def gc_fraction_eq trim_def split: option.splits)

lemma stream_loop_count_mono:
  assumes "quality a \<le> quality a'" "m \<le> m'" "minGC a' = minGC a" "maxGC a' = maxGC a"
    "GC_filter a' = GC_filter a"
  shows "length (fst (stream_loop rnd aq a' m' recs)) \<le> length (fst (stream_loop rnd aq a m recs))"
proof -
  have i: "isl (stream_step rnd aq a' m' r) = isl (stream_step rnd aq a m r)" for r
    using assms by (simp add: stream_step_isl)
  have e: "stream_step rnd aq a' m' r = Inr (Some (trim a' r))
      \<Longrightarrow> stream_step rnd aq a m r = Inr (Some (trim a r))" for r
    unfolding stream_step_emits i using assms by auto
  show ?thesis
    unfolding stream_loop_fst length_map i
    by (rule length_filter_mono) (rule e)
qed

text \<open>
  C8. For a fixed input stream and configuration, replacing the minimum quality by a
  larger value never increases the number of records the Stream Filter prints, and
  neither does replacing the minimum length by a larger value.
\<close>

theorem stream_filter_monotone:
  "(quality a \<le> q' \<longrightarrow>
      length (fst (filter_stream rnd aq (a\<lparr>quality := q'\<rparr>) recs))
        \<le> length (fst (filter_stream rnd aq a recs)))
   \<and> (length_arg a \<le> l' \<longrightarrow>
      length (fst (filter_stream rnd aq (a\<lparr>length_arg := l'\<rparr>) recs))
        \<le> length (fst (filter_stream rnd aq a recs)))"
proof (intro conjI impI)
  assume "quality a \<le> q'"
  then show "length (fst (filter_stream rnd aq (a\<lparr>quality := q'\<rparr>) recs))
        \<le> length (fst (filter_stream rnd aq a recs))"
    unfolding filter_stream_def
    by (intro stream_loop_count_mono) (simp_all add: minlen_of_def)
next
  assume "length_arg a \<le> l'"
  then show "length (fst (filter_stream rnd aq (a\<lparr>length_arg := l'\<rparr>) recs))
        \<le> length (fst (filter_stream rnd aq a recs))"
    unfolding filter_stream_def
    by (intro stream_loop_count_mono) (simp_all add: minlen_of_def)
qed

theorem stream_filter_monotone_witness:
  "quality cfg \<le> 40 \<and> length_arg cfg \<le> 9
   \<and> length (fst (filter_stream rnd_example ave_qual cfg [r1, r2])) = 1
   \<and> length (fst (filter_stream rnd_example ave_qual (cfg\<lparr>quality := 40\<rparr>) [r1, r2])) = 0
   \<and> length (fst (filter_stream rnd_example ave_qual (cfg\<lparr>length_arg := 9\<rparr>) [r1, r2])) = 0"
proof -
  have q: "quality cfg \<le> 40" and l: "length_arg cfg \<le> 9" by (simp_all add: cfg_def)
  have 1: "length (fst (filter_stream rnd_example ave_qual cfg [r1, r2])) = 1"
    by (simp add: filter_stream_def stream_step_def minlen_of_def or_zero_def cfg_def r1_def
        r2_def ave_qual_replicate)
  from stream_filter_monotone[of cfg 40 rnd_example ave_qual "[r1, r2]" 9] q l 1
  have "length (fst (filter_stream rnd_example ave_qual (cfg\<lparr>quality := 40\<rparr>) [r1, r2])) \<le> 1"
    and "length (fst (filter_stream rnd_example ave_qual (cfg\<lparr>length_arg := 9\<rparr>) [r1, r2])) \<le> 1"
    by simp_all
  moreover have "length (fst (filter_stream rnd_example ave_qual (cfg\<lparr>quality := 40\<rparr>) [r1, r2])) \<noteq> 1"
    by (simp add: filter_stream_def stream_step_def minlen_of_def or_zero_def cfg_def r1_def
        r2_def ave_qual_replicate)
  moreover have "length (fst (filter_stream rnd_example ave_qual (cfg\<lparr>length_arg := 9\<rparr>) [r1, r2])) \<noteq> 1"
    by (simp add: filter_stream_def stream_step_def minlen_of_def or_zero_def cfg_def r1_def
        r2_def ave_qual_replicate)
  ultimately show ?thesis using q l 1 by (auto simp: le_Suc_eq)
qed

lemma stream_loop_concat:
  "fst (stream_loop rnd aq a m recs) =
     concat (map (\<lambda>r. fst (stream_loop rnd aq a m [r]))
       (takeWhile (\<lambda>r. snd (stream_loop rnd aq a m [r]) = Finished) recs))"
proof (induction recs)
  case Nil
  show ?case by simp
next
  case (Cons r rs)
  then show ?case
    by (cases "stream_loop rnd aq a m rs") (simp split: sum.splits)
qed

lemma summary_loop_concat:
  "fst (summary_loop data a recs) =
     concat (map (\<lambda>r. fst (summary_loop data a [r]))
       (takeWhile (\<lambda>r. snd (summary_loop data a [r]) = Finished) recs))"
proof (induction recs)
  case Nil
  show ?case by simp
next
  case (Cons r rs)
  then show ?case
    by (cases "summary_loop data a rs") (simp split: sum.splits)
qed

lemma subseq_ids:
  "subseq (map id_rec (map (trim a) (filter P (takeWhile Q recs)))) (map id_rec recs)"
proof -
  have A: "map id_rec (map (trim a) xs) = map id_rec xs" for xs
    by (induction xs) (simp_all add: id_rec_trim)
  have "subseq (takeWhile Q recs) (takeWhile Q recs @ dropWhile Q recs)"
    by (rule subseq_rev_drop_many) simp
  then have "subseq (takeWhile Q recs) recs" by simp
  then have B: "subseq (filter P (takeWhile Q recs)) recs"
    using subseq_filter_left[of P "takeWhile Q recs"] subseq_order.trans by blast
  show ?thesis unfolding A by (rule subseq_map[OF B])
qed

text \<open>
  C9. On both paths the identifiers printed form a subsequence of the identifiers of the
  input, in the same order; and the output of a run is the concatenation, over the
  records before the first failing one, of what the filter prints for that record alone:
  the decision on a record depends on the record and the configuration only.
\<close>

theorem filters_preserve_order:
  "subseq (map id_rec (fst (filter_stream rnd aq a recs))) (map id_rec recs)
   \<and> subseq (map id_rec (fst (filter_using_summary rows a recs))) (map id_rec recs)
   \<and> fst (filter_stream rnd aq a recs) =
       concat (map (\<lambda>r. fst (filter_stream rnd aq a [r]))
         (takeWhile (\<lambda>r. snd (filter_stream rnd aq a [r]) = Finished) recs))
   \<and> fst (filter_using_summary rows a recs) =
       concat (map (\<lambda>r. fst (filter_using_summary rows a [r]))
         (takeWhile (\<lambda>r. snd (filter_using_summary rows a [r]) = Finished) recs))"
proof (intro conjI)
  show "subseq (map id_rec (fst (filter_stream rnd aq a recs))) (map id_rec recs)"
    unfolding filter_stream_def stream_loop_fst by (rule subseq_ids)
  show "subseq (map id_rec (fst (filter_using_summary rows a recs))) (map id_rec recs)"
    unfolding filter_using_summary_def summary_loop_fst by (rule subseq_ids)
  show "fst (filter_stream rnd aq a recs) =
       concat (map (\<lambda>r. fst (filter_stream rnd aq a [r]))
         (takeWhile (\<lambda>r. snd (filter_stream rnd aq a [r]) = Finished) recs))"
    unfolding filter_stream_def by (rule stream_loop_concat)
  show "fst (filter_using_summary rows a recs) =
       concat (map (\<lambda>r. fst (filter_using_summary rows a [r]))
         (takeWhile (\<lambda>r. snd (filter_using_summary rows a [r]) = Finished) recs))"
    unfolding filter_using_summary_def by (rule summary_loop_concat)
qed

theorem filters_preserve_order_witness:
  "subseq (map id_rec (fst (filter_stream rnd_example ave_qual cfg_summary [r2, r1]))) [''r2'', ''r1'']
   \<and> subseq (map id_rec (fst (filter_using_summary rows_example cfg_summary [r2, r1])))
        [''r2'', ''r1'']"
proof -
  have ids: "map id_rec [r2, r1] = [''r2'', ''r1'']" by (simp add: r1_def r2_def)
  from filters_preserve_order[of rnd_example ave_qual cfg_summary "[r2, r1]" rows_example]
  have "subseq (map id_rec (fst (filter_stream rnd_example ave_qual cfg_summary [r2, r1]))) (map id_rec [r2, r1])"
    and "subseq (map id_rec (fst (filter_using_summary rows_example cfg_summary [r2, r1])))
        (map id_rec [r2, r1])"
    by blast+
  then show ?thesis unfolding ids by blast
qed

section \<open>Trimming\<close>

lemma get_args_cases:
  "(minGC p > maxGC p \<and> (\<exists>e. get_args p = Inl e)) \<or> (\<not> minGC p > maxGC p \<and> (\<exists>a0. get_args p = Inr a0))"
  by (simp add: get_args_def)

lemma main_fst:
  "fst (main rnd aq rows p recs) = map (trim (negate_tailcrop p)) (main_accepted rnd aq rows p recs)"
proof (cases "minGC p > maxGC p")
  case True
  then show ?thesis by (simp add: main_def get_args_def main_accepted_def)
next
  case False
  with get_args_cases[of p] obtain a0 where g: "get_args p = Inr a0" by auto
  show ?thesis
  proof (cases "use_summary p")
    case True
    show ?thesis
      using False True
      by (simp add: main_summary[OF g True] filter_using_summary_def summary_loop_fst
          summary_accepts_get_args[OF g] trim_get_args[OF g] main_accepted_def)
  next
    case u: False
    show ?thesis
      using False u
      by (simp add: main_stream[OF g u] filter_stream_fst[OF g] main_accepted_def)
  qed
qed

lemma main_accepted_tailcrop0:
  "main_accepted rnd aq rows (p\<lparr>tailcrop := Some 0\<rparr>) recs = main_accepted rnd aq rows (p\<lparr>tailcrop := None\<rparr>) recs"
proof -
  have 1: "stream_accepts rnd aq (p\<lparr>tailcrop := Some 0\<rparr>) = stream_accepts rnd aq (p\<lparr>tailcrop := None\<rparr>)"
    by (simp add: fun_eq_iff stream_accepts_def crop_len_def gc_configured_def
        split: option.splits)
  have 2: "stream_raises aq (p\<lparr>tailcrop := Some 0\<rparr>) = stream_raises aq (p\<lparr>tailcrop := None\<rparr>)"
    by (simp add: fun_eq_iff stream_raises_def gc_configured_def)
  have 3: "summary_accepts d (p\<lparr>tailcrop := Some 0\<rparr>) = summary_accepts d (p\<lparr>tailcrop := None\<rparr>)" for d
    by (intro summary_accepts_fields) simp_all
  show ?thesis
    by (simp add: main_accepted_def 1 2 3 use_summary_def)
qed

lemma main_accepted_subset: "set (main_accepted rnd aq rows p recs) \<subseteq> set recs"
  by (auto simp: main_accepted_def dest: set_takeWhileD)

lemma py_slice_to_0: "py_slice xs start (Some 0) = []"
  by (simp add: py_slice_def slice_index_def)

lemma py_slice_from:
  "py_slice xs start None =
     drop (case start of None \<Rightarrow> 0 | Some h \<Rightarrow> slice_index (length xs) h) xs"
  by (simp add: py_slice_def split: option.splits)

lemma trim_tailcrop0:
  "trim (negate_tailcrop (p\<lparr>tailcrop := Some 0\<rparr>)) r = r\<lparr>seq := [], phred_quality := []\<rparr>"
  by (simp add: trim_def negate_tailcrop_def getitem_slice_def py_slice_to_0)

lemma trim_tailcrop_None:
  "trim (negate_tailcrop (p\<lparr>tailcrop := None\<rparr>)) r = getitem_slice r (headcrop p) None"
  by (simp add: trim_def negate_tailcrop_def)

text \<open>
  C10. A tail crop of exactly 0 is not an absent tail crop. \<^verbatim>\<open>main\<close> leaves the value 0
  as it is, and on both paths the output is then the output of the run without a tail
  crop with every record emptied: each printed record has an empty sequence and an empty
  quality list. Without a tail crop each printed record is an input record from the head
  crop onward.
\<close>

theorem tailcrop_zero_not_absent:
  "tailcrop (negate_tailcrop (p\<lparr>tailcrop := Some 0\<rparr>)) = Some 0
   \<and> fst (main rnd aq rows (p\<lparr>tailcrop := Some 0\<rparr>) recs) =
     map (\<lambda>r. r\<lparr>seq := [], phred_quality := []\<rparr>) (fst (main rnd aq rows (p\<lparr>tailcrop := None\<rparr>) recs))
   \<and> (\<forall>out\<in>set (fst (main rnd aq rows (p\<lparr>tailcrop := Some 0\<rparr>) recs)).
         seq out = [] \<and> phred_quality out = [])
   \<and> (\<forall>out\<in>set (fst (main rnd aq rows (p\<lparr>tailcrop := None\<rparr>) recs)). \<exists>r\<in>set recs.
         id_rec out = id_rec r
         \<and> seq out =
             drop (case headcrop p of None \<Rightarrow> 0 | Some h \<Rightarrow> slice_index (length (seq r)) h) (seq r)
         \<and> phred_quality out =
             drop (case headcrop p of None \<Rightarrow> 0 | Some h \<Rightarrow> slice_index (length (phred_quality r)) h)
               (phred_quality r))"
proof (intro conjI ballI)
  show "tailcrop (negate_tailcrop (p\<lparr>tailcrop := Some 0\<rparr>)) = Some 0"
    by (simp add: negate_tailcrop_def)
  show 1: "fst (main rnd aq rows (p\<lparr>tailcrop := Some 0\<rparr>) recs) =
     map (\<lambda>r. r\<lparr>seq := [], phred_quality := []\<rparr>) (fst (main rnd aq rows (p\<lparr>tailcrop := None\<rparr>) recs))"
    by (simp add: main_fst main_accepted_tailcrop0 trim_tailcrop0 trim_tailcrop_None
        getitem_slice_def comp_def)
  fix out
  assume "out \<in> set (fst (main rnd aq rows (p\<lparr>tailcrop := Some 0\<rparr>) recs))"
  then show "seq out = []" and "phred_quality out = []"
    unfolding 1 by auto
next
  fix out
  assume "out \<in> set (fst (main rnd aq rows (p\<lparr>tailcrop := None\<rparr>) recs))"
  then obtain r where r: "r \<in> set (main_accepted rnd aq rows (p\<lparr>tailcrop := None\<rparr>) recs)"
    and out: "out = getitem_slice r (headcrop p) None"
    by (auto simp: main_fst trim_tailcrop_None)
  from r main_accepted_subset have "r \<in> set recs" by blast
  with out show "\<exists>r\<in>set recs.
         id_rec out = id_rec r
         \<and> seq out =
             drop (case headcrop p of None \<Rightarrow> 0 | Some h \<Rightarrow> slice_index (length (seq r)) h) (seq r)
         \<and> phred_quality out =
             drop (case headcrop p of None \<Rightarrow> 0 | Some h \<Rightarrow> slice_index (length (phred_quality r)) h)
               (phred_quality r)"
    by (intro bexI[of _ r]) (simp_all add: getitem_slice_def py_slice_from)
qed

lemma main_cfg_r1: "main_accepted rnd_example ave_qual rows (cfg\<lparr>tailcrop := t\<rparr>) [r1] = [r1]"
  if "t = None \<or> t = Some 0"
  using that
  by (auto simp: main_accepted_def use_summary_def cfg_def stream_accepts_def stream_raises_def
      r1_def ave_qual_replicate crop_len_def gc_configured_def)

lemma main_cfg_summary_r1:
  "main_accepted rnd_example ave_qual rows_example (cfg_summary\<lparr>tailcrop := t\<rparr>) [r1] = [r1]"
  by (simp add: main_accepted_def use_summary_def cfg_summary_def cfg_def summary_accepts_def
      in_summary_def summary_index_def rows_example_def r1_def)

theorem tailcrop_zero_not_absent_witness:
  "fst (main rnd_example ave_qual [] (cfg\<lparr>tailcrop := Some 0\<rparr>) [r1]) =
     [\<lparr>id_rec = ''r1'', seq = [], phred_quality = []\<rparr>]
   \<and> fst (main rnd_example ave_qual [] (cfg\<lparr>tailcrop := None\<rparr>) [r1]) =
     [\<lparr>id_rec = ''r1'', seq = ''GTACGTAC'', phred_quality = replicate 8 30\<rparr>]
   \<and> fst (main rnd_example ave_qual rows_example (cfg_summary\<lparr>tailcrop := Some 0\<rparr>) [r1]) =
     [\<lparr>id_rec = ''r1'', seq = [], phred_quality = []\<rparr>]
   \<and> fst (main rnd_example ave_qual rows_example (cfg_summary\<lparr>tailcrop := None\<rparr>) [r1]) =
     [\<lparr>id_rec = ''r1'', seq = ''GTACGTAC'', phred_quality = replicate 8 30\<rparr>]"
proof -
  have n: "fst (main rnd_example ave_qual [] (cfg\<lparr>tailcrop := None\<rparr>) [r1]) =
     [\<lparr>id_rec = ''r1'', seq = ''GTACGTAC'', phred_quality = replicate 8 30\<rparr>]"
    by (simp add: main_fst main_cfg_r1 trim_tailcrop_None)
       (simp add: getitem_slice_def py_slice_def slice_index_def cfg_def r1_def)
  have m: "fst (main rnd_example ave_qual rows_example (cfg_summary\<lparr>tailcrop := None\<rparr>) [r1]) =
     [\<lparr>id_rec = ''r1'', seq = ''GTACGTAC'', phred_quality = replicate 8 30\<rparr>]"
    by (simp add: main_fst main_cfg_summary_r1 trim_tailcrop_None)
       (simp add: getitem_slice_def py_slice_def slice_index_def cfg_summary_def cfg_def r1_def)
  from tailcrop_zero_not_absent[of cfg rnd_example ave_qual "[]" "[r1]"]
  have "fst (main rnd_example ave_qual [] (cfg\<lparr>tailcrop := Some 0\<rparr>) [r1]) =
     map (\<lambda>r. r\<lparr>seq := [], phred_quality := []\<rparr>) (fst (main rnd_example ave_qual [] (cfg\<lparr>tailcrop := None\<rparr>) [r1]))"
    by blast
  moreover from tailcrop_zero_not_absent[of cfg_summary rnd_example ave_qual rows_example "[r1]"]
  have "fst (main rnd_example ave_qual rows_example (cfg_summary\<lparr>tailcrop := Some 0\<rparr>) [r1]) =
     map (\<lambda>r. r\<lparr>seq := [], phred_quality := []\<rparr>)
       (fst (main rnd_example ave_qual rows_example (cfg_summary\<lparr>tailcrop := None\<rparr>) [r1]))"
    by blast
  ultimately show ?thesis using n m by simp
qed

lemma take_drop_range:
  assumes "hi \<le> length xs"
  shows "take (hi - lo) (drop lo xs) = map ((!) xs) [lo ..< hi]"
proof (rule nth_equalityI)
  show "length (take (hi - lo) (drop lo xs)) = length (map ((!) xs) [lo ..< hi])"
    using assms by simp
next
  fix i
  assume "i < length (take (hi - lo) (drop lo xs))"
  then show "take (hi - lo) (drop lo xs) ! i = map ((!) xs) [lo ..< hi] ! i"
    using assms by simp
qed

lemma py_slice_range:
  assumes "0 \<le> crop_len start" and "stop = None \<or> (\<exists>t>0. stop = Some (- t))"
  shows "py_slice xs start stop =
           map ((!) xs) [nat (crop_len start) ..< length xs - nat (- crop_len stop)]"
proof -
  let ?n = "length xs"
  let ?lo = "case start of None \<Rightarrow> 0 | Some i \<Rightarrow> slice_index ?n i"
  let ?hi = "case stop of None \<Rightarrow> ?n | Some j \<Rightarrow> slice_index ?n j"
  have hi: "?hi = ?n - nat (- crop_len stop)"
    using assms(2) by (auto simp: slice_index_def crop_len_def)
  have lo: "?lo = min (nat (crop_len start)) ?n"
    using assms(1) by (auto simp: slice_index_def crop_len_def split: option.splits)
  have "py_slice xs start stop = take (?hi - ?lo) (drop ?lo xs)"
    by (simp add: py_slice_def Let_def)
  also have "\<dots> = map ((!) xs) [?lo ..< ?hi]"
    by (rule take_drop_range) (simp add: hi)
  also have "[?lo ..< ?hi] = [nat (crop_len start) ..< ?hi]"
    unfolding lo hi by (cases "nat (crop_len start) \<le> ?n") (simp_all add: min_def)
  finally show ?thesis by (simp only: hi)
qed

lemma negate_stop:
  assumes "tailcrop p = None \<or> 0 < crop_len (tailcrop p)"
  shows "tailcrop (negate_tailcrop p) = None \<or> (\<exists>t>0. tailcrop (negate_tailcrop p) = Some (- t))"
    and "- crop_len (tailcrop (negate_tailcrop p)) = crop_len (tailcrop p)"
  using assms by (auto simp: negate_tailcrop_def crop_len_def split: option.splits)

text \<open>
  C5, as amended. Let a record with as many quality scores as symbols be accepted and
  printed, on either path, with a head crop \<open>h\<close> that is non-negative or absent (0) and
  a tail crop \<open>t\<close> that is strictly positive or absent (0). Then the printed sequence and
  the printed quality list are both the index range \<open>[h, length - t)\<close> of the original,
  they have the same length, and that length is \<open>length - h - t\<close> whenever
  \<open>h + t \<le> length\<close>, which always holds on the Stream Filter path with a non-negative
  minimum length.
\<close>

theorem trim_invariant:
  fixes p :: args and r out :: fastq_record
  defines "h \<equiv> crop_len (headcrop p)" and "t \<equiv> crop_len (tailcrop p)"
  assumes emitted: "fst (main rnd aq rows p [r]) = [out]"
    and wf: "length (phred_quality r) = length (seq r)"
    and head: "0 \<le> h"
    and tail: "tailcrop p = None \<or> 0 < t"
  shows "seq out = map ((!) (seq r)) [nat h ..< length (seq r) - nat t]
       \<and> phred_quality out = map ((!) (phred_quality r)) [nat h ..< length (seq r) - nat t]
       \<and> length (phred_quality out) = length (seq out)
       \<and> (h + t \<le> int (length (seq r)) \<longrightarrow>
            int (length (seq out)) = int (length (seq r)) - h - t)
       \<and> (\<not> use_summary p \<and> 0 \<le> length_arg p \<longrightarrow>
            int (length (seq out)) = int (length (seq r)) - h - t)"
proof -
  let ?a = "negate_tailcrop p"
  from emitted have acc: "map (trim ?a) (main_accepted rnd aq rows p [r]) = [out]"
    by (simp add: main_fst)
  have sub: "set (main_accepted rnd aq rows p [r]) \<subseteq> {r}"
    using main_accepted_subset[of rnd aq rows p "[r]"] by simp
  from acc obtain x where x: "main_accepted rnd aq rows p [r] = [x]" and o: "out = trim ?a x"
    by (cases "main_accepted rnd aq rows p [r]") auto
  from x sub have "x = r" by auto
  with x o have ma: "main_accepted rnd aq rows p [r] = [r]" and out: "out = trim ?a r" by simp_all
  have hc: "headcrop ?a = headcrop p" by (simp add: negate_fields)
  have st: "tailcrop ?a = None \<or> (\<exists>t>0. tailcrop ?a = Some (- t))"
    and tc: "- crop_len (tailcrop ?a) = t"
    using negate_stop[of p] tail by (simp_all add: t_def)
  have s: "seq out = map ((!) (seq r)) [nat h ..< length (seq r) - nat t]"
    using py_slice_range[of "headcrop p" "tailcrop ?a" "seq r"] head st
    by (simp add: out trim_def getitem_slice_def hc tc h_def)
  have q: "phred_quality out = map ((!) (phred_quality r)) [nat h ..< length (seq r) - nat t]"
    using py_slice_range[of "headcrop p" "tailcrop ?a" "phred_quality r"] head st
    by (simp add: out trim_def getitem_slice_def hc tc h_def wf)
  have t0: "0 \<le> t" using tail by (auto simp: t_def crop_len_def)
  have len: "int (length (seq out)) = int (length (seq r)) - h - t"
    if "h + t \<le> int (length (seq r))"
    using that head t0 by (simp add: s)
  have stream: "h + t \<le> int (length (seq r))" if "\<not> use_summary p" "0 \<le> length_arg p"
  proof -
    from ma that(1) have "stream_accepts rnd aq p r"
      by (auto simp: main_accepted_def split: if_splits)
    then show ?thesis using that(2) by (simp add: stream_accepts_def h_def t_def)
  qed
  from s q len stream show ?thesis by simp
qed

lemma main_cfg_tail1: "fst (main rnd_example ave_qual [] cfg_tail1 [r1]) = [r1_cropped]"
proof -
  have "main_accepted rnd_example ave_qual [] cfg_tail1 [r1] = [r1]"
    by (simp add: main_accepted_def use_summary_def cfg_tail1_def cfg_def stream_accepts_def
        stream_raises_def r1_def ave_qual_replicate crop_len_def gc_configured_def)
  moreover have "trim (negate_tailcrop cfg_tail1) r1 = r1_cropped"
    by (simp add: trim_def negate_tailcrop_def cfg_tail1_def cfg_def r1_def r1_cropped_def
        getitem_slice_def py_slice_def slice_index_def)
  ultimately show ?thesis by (simp add: main_fst)
qed

theorem trim_invariant_witness:
  "fst (main rnd_example ave_qual [] cfg_tail1 [r1]) = [r1_cropped]
   \<and> length (phred_quality r1) = length (seq r1)
   \<and> 0 \<le> crop_len (headcrop cfg_tail1)
   \<and> 0 < crop_len (tailcrop cfg_tail1)
   \<and> seq r1_cropped = map ((!) (seq r1)) [2 ..< 9]
   \<and> int (length (seq r1_cropped)) = int (length (seq r1)) - 2 - 1"
proof -
  have w: "length (phred_quality r1) = length (seq r1)" by (simp add: r1_def)
  have h: "0 \<le> crop_len (headcrop cfg_tail1)" and h2: "crop_len (headcrop cfg_tail1) = 2"
    by (simp_all add: cfg_tail1_def cfg_def crop_len_def)
  have t: "0 < crop_len (tailcrop cfg_tail1)" and t1: "crop_len (tailcrop cfg_tail1) = 1"
    by (simp_all add: cfg_tail1_def cfg_def crop_len_def)
  have n: "length (seq r1) = 10" by (simp add: r1_def)
  have u: "\<not> use_summary cfg_tail1" "0 \<le> length_arg cfg_tail1"
    by (simp_all add: use_summary_def cfg_tail1_def cfg_def)
  from trim_invariant[OF main_cfg_tail1 w h disjI2[OF t]] u
  have "seq r1_cropped = map ((!) (seq r1)) [nat 2 ..< length (seq r1) - nat 1]"
    and "int (length (seq r1_cropped)) = int (length (seq r1)) - 2 - 1"
    unfolding h2 t1 by blast+
  then show ?thesis using main_cfg_tail1 w h t by (simp add: n)
qed

text \<open>
  The trim invariant as the specification states it fails in two places: on the
  Summary-Joined path a record shorter than the two crops together is printed empty,
  and a tail crop of exactly 0 prints every accepted record empty.
\<close>

theorem trim_invariant_counterexample:
  "fst (main rnd_example ave_qual rows_example (cfg_summary\<lparr>headcrop := Some 6, tailcrop := Some 6\<rparr>) [r1])
     = [r1_empty]
   \<and> int (length (seq r1_empty)) \<noteq> int (length (seq r1)) - 6 - 6
   \<and> fst (main rnd_example ave_qual [] (cfg\<lparr>tailcrop := Some 0\<rparr>) [r1]) = [r1_empty]
   \<and> int (length (seq r1_empty)) \<noteq> int (length (seq r1)) - 2 - 0"
proof -
  have a: "main_accepted rnd_example ave_qual rows_example
      (cfg_summary\<lparr>headcrop := Some 6, tailcrop := Some 6\<rparr>) [r1] = [r1]"
    by (simp add: main_accepted_def use_summary_def cfg_summary_def cfg_def summary_accepts_def
        in_summary_def summary_index_def rows_example_def r1_def)
  have b: "trim (negate_tailcrop (cfg_summary\<lparr>headcrop := Some 6, tailcrop := Some 6\<rparr>)) r1
      = r1_empty"
    by (simp add: trim_def negate_tailcrop_def cfg_summary_def cfg_def r1_def r1_empty_def
        getitem_slice_def py_slice_def slice_index_def)
  have c: "fst (main rnd_example ave_qual [] (cfg\<lparr>tailcrop := Some 0\<rparr>) [r1]) = [r1_empty]"
    by (simp add: main_fst main_cfg_r1 trim_tailcrop0) (simp add: r1_def r1_empty_def)
  have d: "fst (main rnd_example ave_qual rows_example
      (cfg_summary\<lparr>headcrop := Some 6, tailcrop := Some 6\<rparr>) [r1]) = [r1_empty]"
    by (simp add: main_fst a b)
  have e: "int (length (seq r1_empty)) \<noteq> int (length (seq r1)) - 6 - 6"
    "int (length (seq r1_empty)) \<noteq> int (length (seq r1)) - 2 - 0"
    by (simp_all add: r1_def r1_empty_def)
  from c d e show ?thesis by blast
qed

section \<open>The division by zero\<close>

lemma stream_loop_append:
  assumes "\<forall>r\<in>set pre. \<not> isl (stream_step rnd aq a m r)"
  shows "snd (stream_loop rnd aq a m (pre @ rest)) = snd (stream_loop rnd aq a m rest)"
  using assms
proof (induction pre)
  case Nil
  show ?case by simp
next
  case (Cons r pre)
  then show ?case
    by (cases "stream_loop rnd aq a m (pre @ rest)"; cases "stream_loop rnd aq a m rest")
       (auto split: sum.splits)
qed

lemma stream_loop_raises:
  assumes "stream_step rnd aq a m r = Inl e"
  shows "stream_loop rnd aq a m (r # post) = ([], Raised e)"
  using assms by simp

lemma stream_loop_finished:
  assumes "\<forall>r\<in>set recs. \<not> isl (stream_step rnd aq a m r)"
  shows "snd (stream_loop rnd aq a m recs) = Finished"
  using stream_loop_append[OF assms, of "[]"] by simp

lemma stream_step_zero_division:
  "stream_step rnd aq a m r = Inl ZeroDivisionError \<longleftrightarrow> GC_filter a \<and> seq r = []"
  by (auto simp: stream_step_def gc_fraction_eq split: option.splits if_splits)

text \<open>
  C7, as amended. The GC fraction fails with a \<open>ZeroDivisionError\<close> on the empty sequence
  and on no other. The Stream Filter has no guard for empty records: a run ends in that
  error exactly when GC filtering is switched on and the stream holds an empty record
  before which no record is empty or fails in the quality aggregation. With GC
  filtering switched off the division is never evaluated.
\<close>

theorem gc_division_reachable:
  "gc_fraction rnd [] = Inl ZeroDivisionError
   \<and> (s \<noteq> [] \<longrightarrow> (\<exists>g. gc_fraction rnd s = Inr g))
   \<and> (snd (filter_stream rnd aq a recs) = Raised ZeroDivisionError \<longleftrightarrow>
        GC_filter a \<and>
        (\<exists>pre r post. recs = pre @ r # post \<and> seq r = []
           \<and> (\<forall>x\<in>set pre. seq x \<noteq> [] \<and> aq (phred_quality x) \<noteq> None)))"
proof (intro conjI impI)
  show "gc_fraction rnd [] = Inl ZeroDivisionError" by (simp add: gc_fraction_eq)
  show "\<exists>g. gc_fraction rnd s = Inr g" if "s \<noteq> []" using that by (simp add: gc_fraction_eq)
  let ?m = "minlen_of a"
  let ?R = "GC_filter a \<and>
        (\<exists>pre r post. recs = pre @ r # post \<and> seq r = []
           \<and> (\<forall>x\<in>set pre. seq x \<noteq> [] \<and> aq (phred_quality x) \<noteq> None))"
  have "snd (stream_loop rnd aq a ?m recs) = Raised ZeroDivisionError \<longleftrightarrow> ?R"
  proof
    assume L: "snd (stream_loop rnd aq a ?m recs) = Raised ZeroDivisionError"
    have "\<exists>r\<in>set recs. isl (stream_step rnd aq a ?m r)"
    proof (rule ccontr)
      assume "\<not> (\<exists>r\<in>set recs. isl (stream_step rnd aq a ?m r))"
      then have "snd (stream_loop rnd aq a ?m recs) = Finished"
        by (intro stream_loop_finished) simp
      with L show False by simp
    qed
    from split_list_first_prop[OF this] obtain pre r post where
      d: "recs = pre @ r # post" and r: "isl (stream_step rnd aq a ?m r)"
      and p: "\<forall>x\<in>set pre. \<not> isl (stream_step rnd aq a ?m x)"
      by blast
    from r obtain e where e: "stream_step rnd aq a ?m r = Inl e"
      by (cases "stream_step rnd aq a ?m r") auto
    have "snd (stream_loop rnd aq a ?m recs) = Raised e"
      unfolding d stream_loop_append[OF p] stream_loop_raises[OF e] by simp
    with L have "e = ZeroDivisionError" by simp
    with e have gc: "GC_filter a" and em: "seq r = []"
      by (simp_all add: stream_step_zero_division)
    from p gc have "\<forall>x\<in>set pre. seq x \<noteq> [] \<and> aq (phred_quality x) \<noteq> None"
      by (simp add: stream_step_isl)
    with d gc em show ?R by blast
  next
    assume R: ?R
    then obtain pre r post where d: "recs = pre @ r # post" and em: "seq r = []"
      and p: "\<forall>x\<in>set pre. seq x \<noteq> [] \<and> aq (phred_quality x) \<noteq> None"
      by blast
    from p have p': "\<forall>x\<in>set pre. \<not> isl (stream_step rnd aq a ?m x)"
      by (simp add: stream_step_isl)
    from R em have e: "stream_step rnd aq a ?m r = Inl ZeroDivisionError"
      by (simp add: stream_step_zero_division)
    show "snd (stream_loop rnd aq a ?m recs) = Raised ZeroDivisionError"
      unfolding d stream_loop_append[OF p'] stream_loop_raises[OF e] by simp
  qed
  then show "snd (filter_stream rnd aq a recs) = Raised ZeroDivisionError \<longleftrightarrow> ?R"
    by (simp add: filter_stream_def)
qed

text \<open>
  With a minimum GC fraction configured, an empty read in the input ends the run with
  the division by zero.
\<close>

theorem gc_division_reachable_counterexample:
  "main rnd_example ave_qual [] (cfg\<lparr>minGC := 1 / 5\<rparr>) [r1, r0, r2] =
     ([\<lparr>id_rec = ''r1'', seq = ''GTACGTAC'', phred_quality = replicate 8 30\<rparr>],
      Raised ZeroDivisionError)"
  by (simp add: main_def get_args_def cfg_def use_summary_def negate_tailcrop_def
      filter_stream_def minlen_of_def or_zero_def stream_step_def gc_fraction_eq gc_content_def
      is_GC_def r0_def r1_def r2_def ave_qual_replicate getitem_slice_def py_slice_def
      slice_index_def rnd_example_def)

theorem gc_division_reachable_witness:
  "''ACGT'' \<noteq> [] \<and> gc_fraction rnd_example ''ACGT'' = Inr (1 / 2)
   \<and> snd (filter_stream rnd_example ave_qual cfg_gc [r1, r0, r2]) = Raised ZeroDivisionError"
proof -
  have g: "GC_filter cfg_gc" by (simp add: cfg_gc_def)
  have "\<exists>pre r post. [r1, r0, r2] = pre @ r # post \<and> seq r = []
           \<and> (\<forall>x\<in>set pre. seq x \<noteq> [] \<and> ave_qual (phred_quality x) \<noteq> None)"
    by (intro exI[of _ "[r1]"] exI[of _ r0] exI[of _ "[r2]"])
       (simp add: r0_def r1_def ave_qual_replicate)
  with g gc_division_reachable[of rnd_example "''ACGT''" ave_qual cfg_gc "[r1, r0, r2]"]
  have "snd (filter_stream rnd_example ave_qual cfg_gc [r1, r0, r2]) = Raised ZeroDivisionError"
    and "\<exists>g. gc_fraction rnd_example ''ACGT'' = Inr g"
    by simp_all
  then show ?thesis by (simp add: gc_fraction_eq gc_content_def is_GC_def rnd_example_def)
qed

end
